theory Spec2Isabelle
  imports Main
begin

section \<open>The Nyx points ledger (cogs/memory.py) and the chat session start (cogs/asylumchat.py)\<close>

subsection \<open>Python built-ins the ledger calls\<close>

text \<open>
  Exceptions are values. Only the classes the modelled code can meet are listed.
\<close>

datatype exn = ValueError | TypeError | OverflowError | JSONDecodeError | OSError

text \<open>
  A Python \<open>str\<close> is the list of its code points; \<open>ascii\<close> reads a literal of the
  theory as one.
\<close>

type_synonym unicode = "nat list"

definition ascii :: "string \<Rightarrow> unicode" where
  "ascii s = map of_char s"

text \<open>
  \<open>str(user_id)\<close> for an integer: the decimal numeral, with a leading minus sign for a
  negative number.
\<close>

definition digit_char :: "nat \<Rightarrow> nat" where
  "digit_char d = 48 + d"

function str_nat :: "nat \<Rightarrow> unicode" where
  "str_nat n = (if n < 10 then [digit_char n] else str_nat (n div 10) @ [digit_char (n mod 10)])"
  by pat_completeness auto
termination
  by (relation "measure (\<lambda>n. n)") auto

definition py_str :: "int \<Rightarrow> unicode" where
  "py_str i = (if i < 0 then 45 # str_nat (nat (- i)) else str_nat (nat i))"

text \<open>
  \<open>int(s)\<close> for a \<open>str\<close>, base ten, as CPython 3.11 computes it. First every code
  point from 127 on is replaced: white space of Unicode by a blank, a decimal digit of
  Unicode by its ASCII digit, anything else by a question mark (the tables are those of
  Unicode 14: the white space above ASCII, and the first code point of each run of ten
  decimal digits above ASCII). Then the white space of C (tab to carriage return, and the
  blank; not the separators 28 to 31) is skipped at both ends, one sign is allowed, and
  digits follow, where single underscores may separate digits. A numeral of more than 4300
  digits is refused. Every refusal is a ValueError (\<open>None\<close> here).
\<close>

definition unicode_space :: "nat \<Rightarrow> bool" where
  "unicode_space c =
     (c \<in> {133, 160, 5760, 8232, 8233, 8239, 8287, 12288} \<or> (8192 \<le> c \<and> c \<le> 8202))"

definition decimal_zeros :: "nat list" where
  "decimal_zeros =
     [1632, 1776, 1984, 2406, 2534, 2662, 2790, 2918, 3046, 3174, 3302, 3430, 3558, 3664,
      3792, 3872, 4160, 4240, 6112, 6160, 6470, 6608, 6784, 6800, 6992, 7088, 7232, 7248,
      42528, 43216, 43264, 43472, 43504, 43600, 44016, 65296, 66720, 68912, 69734, 69872,
      69942, 70096, 70384, 70736, 70864, 71248, 71360, 71472, 71904, 72016, 72784, 73040,
      73120, 92768, 92864, 93008, 120782, 120792, 120802, 120812, 120822, 123200, 123632,
      125264, 130032]"

definition to_decimal :: "nat \<Rightarrow> nat option" where
  "to_decimal c =
     (case filter (\<lambda>z. z \<le> c \<and> c < z + 10) decimal_zeros of
        [] \<Rightarrow> None
      | z # zs \<Rightarrow> Some (c - z))"

definition to_ascii :: "nat \<Rightarrow> nat" where
  "to_ascii c =
     (if c < 127 then c
      else if unicode_space c then 32
      else case to_decimal c of None \<Rightarrow> 63 | Some d \<Rightarrow> 48 + d)"

definition is_space :: "nat \<Rightarrow> bool" where
  "is_space c = (c \<in> {9, 10, 11, 12, 13, 32})"

definition is_digit :: "nat \<Rightarrow> bool" where
  "is_digit c = (48 \<le> c \<and> c \<le> 57)"

definition digit_val :: "nat \<Rightarrow> nat" where
  "digit_val c = c - 48"

definition strip :: "unicode \<Rightarrow> unicode" where
  "strip s = rev (dropWhile is_space (rev (dropWhile is_space s)))"

fun parse_digits :: "nat \<Rightarrow> unicode \<Rightarrow> nat option" where
  "parse_digits acc [] = Some acc"
| "parse_digits acc [c] = (if is_digit c then Some (acc * 10 + digit_val c) else None)"
| "parse_digits acc (c # d # ds) =
     (if is_digit c then parse_digits (acc * 10 + digit_val c) (d # ds)
      else if c = 95 \<and> is_digit d then parse_digits (acc * 10 + digit_val d) ds
      else None)"

definition parse_nat :: "unicode \<Rightarrow> nat option" where
  "parse_nat s = (case s of [] \<Rightarrow> None
                  | c # cs \<Rightarrow> if is_digit c then parse_digits (digit_val c) cs else None)"

definition max_str_digits :: nat where
  "max_str_digits = 4300"

definition int_of_str :: "unicode \<Rightarrow> int option" where
  "int_of_str s =
     (let t = strip (map to_ascii s) in
      if max_str_digits < length (filter is_digit t) then None
      else case t of
        [] \<Rightarrow> None
      | c # cs \<Rightarrow>
          if c = 45 then map_option (\<lambda>n. - int n) (parse_nat cs)
          else if c = 43 then map_option int (parse_nat cs)
          else map_option int (parse_nat (c # cs)))"

text \<open>
  A Python dict keeps its keys in insertion order; assigning to a key that is present keeps
  the key's position. \<open>notes.get(k, 0)\<close> is \<open>dict_get\<close>.
\<close>

fun dict_set :: "('k \<times> 'v) list \<Rightarrow> 'k \<Rightarrow> 'v \<Rightarrow> ('k \<times> 'v) list" where
  "dict_set [] k v = [(k, v)]"
| "dict_set ((k', v') # d) k v = (if k' = k then (k, v) # d else (k', v') # dict_set d k v)"

definition dict_get :: "('k \<times> 'v) list \<Rightarrow> 'k \<Rightarrow> 'v \<Rightarrow> 'v" where
  "dict_get d k dflt = (case map_of d k of None \<Rightarrow> dflt | Some v \<Rightarrow> v)"

definition py_dict :: "('k \<times> 'v) list \<Rightarrow> ('k \<times> 'v) list" where
  "py_dict kvs = foldl (\<lambda>d (k, v). dict_set d k v) [] kvs"

subsection \<open>JSON values and files\<close>

text \<open>
  The json module is a collaborator: a file is described by what \<open>json.loads\<close> makes of
  its text. \<open>Document j\<close> is text that parses to the value \<open>j\<close>, \<open>Blank\<close> is text
  whose \<open>strip()\<close> is empty, \<open>Malformed\<close> is other text that the parser rejects (every
  proper, non-empty prefix of a serialized object is of this kind, since the closing brace
  is its last character), and \<open>Unreadable\<close> is a file whose open or read raises.
  A float is \<open>m * 2 ^ e\<close>, an infinity or not-a-number; json.loads accepts the
  literals Infinity and NaN, and reads a numeral beyond the range of a double, such as
  \<open>1e400\<close>, as an infinity.
\<close>

datatype pyfloat = Finite int int | Infinite | NaN

datatype json = JNull | JBool bool | JInt int | JFloat pyfloat | JStr unicode
  | JArr "json list" | JObj "(unicode \<times> json) list"

datatype content = Document json | Blank | Malformed | Unreadable

definition trunc_float :: "int \<Rightarrow> int \<Rightarrow> int" where
  "trunc_float m e =
     (if 0 \<le> e then m * 2 ^ nat e
      else if 0 \<le> m then m div 2 ^ nat (- e)
      else - ((- m) div 2 ^ nat (- e)))"

fun py_int :: "json \<Rightarrow> exn + int" where
  "py_int (JInt n) = Inr n"
| "py_int (JBool b) = Inr (if b then 1 else 0)"
| "py_int (JFloat (Finite m e)) = Inr (trunc_float m e)"
| "py_int (JFloat Infinite) = Inl OverflowError"
| "py_int (JFloat NaN) = Inl ValueError"
| "py_int (JStr s) = (case int_of_str s of None \<Rightarrow> Inl ValueError | Some n \<Rightarrow> Inr n)"
| "py_int JNull = Inl TypeError"
| "py_int (JArr xs) = Inl TypeError"
| "py_int (JObj kvs) = Inl TypeError"

definition json_dumps :: "(unicode \<times> int) list \<Rightarrow> content" where
  "json_dumps d = Document (JObj (map (\<lambda>(k, v). (k, JInt v)) d))"

subsection \<open>The Memory cog's state\<close>

datatype level = DEBUG | INFO | WARNING | ERROR

datatype path = NotesFile | BackupFile | TempFile

record memory =
  nyx_notes :: "(unicode \<times> int) list"
  loaded :: bool
  notes_file :: "content option"
  backup_file :: "content option"
  temp_file :: "content option"
  logged :: "(level \<times> string) list"

definition logmsg :: "level \<Rightarrow> string \<Rightarrow> memory \<Rightarrow> memory" where
  "logmsg l s m = m\<lparr>logged := logged m @ [(l, s)]\<rparr>"

definition file_at :: "path \<Rightarrow> memory \<Rightarrow> content option" where
  "file_at p m = (case p of NotesFile \<Rightarrow> notes_file m | BackupFile \<Rightarrow> backup_file m
                  | TempFile \<Rightarrow> temp_file m)"

definition put_file :: "path \<Rightarrow> content option \<Rightarrow> memory \<Rightarrow> memory" where
  "put_file p c m = (case p of NotesFile \<Rightarrow> m\<lparr>notes_file := c\<rparr>
                     | BackupFile \<Rightarrow> m\<lparr>backup_file := c\<rparr>
                     | TempFile \<Rightarrow> m\<lparr>temp_file := c\<rparr>)"

definition os_exists :: "path \<Rightarrow> memory \<Rightarrow> bool" where
  "os_exists p m = (file_at p m \<noteq> None)"


text \<open>
  \<open>os.remove\<close> and \<open>os.rename\<close>: both raise when the source is missing; a rename
  moves the content and replaces what is at the destination.
\<close>

definition os_remove :: "path \<Rightarrow> memory \<Rightarrow> exn + memory" where
  "os_remove p m = (if os_exists p m then Inr (put_file p None m) else Inl OSError)"

definition os_rename :: "path \<Rightarrow> path \<Rightarrow> memory \<Rightarrow> exn + memory" where
  "os_rename src dst m =
     (if os_exists src m then Inr (put_file src None (put_file dst (file_at src m) m))
      else Inl OSError)"

text \<open>
  The environment of one call of \<open>save_notes\<close>: which of its operating-system calls
  fail (an I/O error), and what a failed write leaves in the temporary file, which
  \<open>open(..., 'w')\<close> has truncated: nothing, or a proper prefix of the text.
  A call that fails has no effect on the files.
\<close>

datatype stage = Makedirs | OpenTemp | WriteTemp | RemoveBackup | RenameToBackup
  | RenameToNotes | RestoreBackup

record faults =
  fails :: "stage \<Rightarrow> bool"
  torn_empty :: bool

definition no_faults :: faults where
  "no_faults = \<lparr>fails = (\<lambda>s. False), torn_empty = False\<rparr>"

definition attempt :: "faults \<Rightarrow> stage \<Rightarrow> (memory \<Rightarrow> exn + memory) \<Rightarrow> memory \<Rightarrow> exn + memory" where
  "attempt io st f m = (if fails io st then Inl OSError else f m)"

subsection \<open>save_notes\<close>

text \<open>
  The body of the \<open>try\<close> block of \<open>save_notes\<close>, in three parts. The result is the
  exception raised, if any, and the state at that point.
\<close>

definition write_temp :: "faults \<Rightarrow> memory \<Rightarrow> exn option \<times> memory" where
  "write_temp io m =
     (if fails io OpenTemp then (Some OSError, m)
      else if fails io WriteTemp
        then (Some OSError, put_file TempFile (Some (if torn_empty io then Blank else Malformed)) m)
      else (None, put_file TempFile (Some (json_dumps (nyx_notes m))) m))"

definition backup_existing :: "faults \<Rightarrow> memory \<Rightarrow> exn option \<times> memory" where
  "backup_existing io m =
     (if os_exists NotesFile m then
        (case (if os_exists BackupFile m then attempt io RemoveBackup (os_remove BackupFile) m
               else Inr m) of
           Inl e \<Rightarrow> (Some e, m)
         | Inr m1 \<Rightarrow>
             (case attempt io RenameToBackup (os_rename NotesFile BackupFile) m1 of
                Inl e \<Rightarrow> (Some e, m1)
              | Inr m2 \<Rightarrow> (None, m2)))
      else (None, m))"

definition save_try :: "faults \<Rightarrow> memory \<Rightarrow> exn option \<times> memory" where
  "save_try io m =
     (if fails io Makedirs then (Some OSError, m)
      else case write_temp io m of
        (Some e, m1) \<Rightarrow> (Some e, m1)
      | (None, m1) \<Rightarrow>
          (case backup_existing io m1 of
             (Some e, m2) \<Rightarrow> (Some e, m2)
           | (None, m2) \<Rightarrow>
               (case attempt io RenameToNotes (os_rename TempFile NotesFile) m2 of
                  Inl e \<Rightarrow> (Some e, m2)
                | Inr m3 \<Rightarrow> (None, logmsg DEBUG ''Nyx Notes saved successfully'' m3))))"

text \<open>
  \<open>save_notes\<close>: the \<open>try\<close> block, and the handler of \<open>except Exception\<close>, which
  logs and restores the backup when there is one and the canonical file is missing; a
  failure of the restore is caught by the inner handler.
\<close>

definition save_notes :: "faults \<Rightarrow> memory \<Rightarrow> exn option \<times> memory" where
  "save_notes io m =
     (case save_try io m of
        (None, m') \<Rightarrow> (None, m')
      | (Some e, m') \<Rightarrow>
          (let m1 = logmsg ERROR ''Failed to save Nyx Notes'' m' in
           if os_exists BackupFile m1 \<and> \<not> os_exists NotesFile m1 then
             (case attempt io RestoreBackup (os_rename BackupFile NotesFile) m1 of
                Inl e' \<Rightarrow> (None, logmsg ERROR ''Failed to restore backup'' m1)
              | Inr m2 \<Rightarrow> (None, logmsg DEBUG ''Restored from backup file'' m2))
           else (None, m1)))"

subsection \<open>load_notes\<close>

text \<open>
  The loop over the entries of a loaded object. \<open>str(user_id)\<close> of a JSON key, which is a
  string, is the key. The inner handler catches ValueError and TypeError only; any other
  exception of \<open>int(points)\<close> leaves the loop.
\<close>

fun load_entries :: "(unicode \<times> json) list \<Rightarrow> memory \<Rightarrow> exn option \<times> memory" where
  "load_entries [] m = (None, m)"
| "load_entries ((user_id, points) # rest) m =
     (case py_int points of
        Inr n \<Rightarrow> load_entries rest (m\<lparr>nyx_notes := dict_set (nyx_notes m) user_id n\<rparr>)
      | Inl e \<Rightarrow>
          if e = ValueError \<or> e = TypeError
          then load_entries rest (logmsg WARNING ''Invalid data for user'' m)
          else (Some e, m))"

text \<open>
  The \<open>try\<close> block for one file that exists. \<open>Inr True\<close> is the \<open>return\<close> after a
  successful load, \<open>Inr False\<close> falls through to the next file.
\<close>

definition load_file :: "content \<Rightarrow> memory \<Rightarrow> (exn + bool) \<times> memory" where
  "load_file c m =
     (case c of
        Unreadable \<Rightarrow> (Inl OSError, m)
      | Blank \<Rightarrow> (Inr False, logmsg WARNING ''Empty file'' m)
      | Malformed \<Rightarrow> (Inl JSONDecodeError, m)
      | Document j \<Rightarrow>
          (case j of
             JObj kvs \<Rightarrow>
               (case load_entries (py_dict kvs) (m\<lparr>nyx_notes := []\<rparr>) of
                  (Some e, m') \<Rightarrow> (Inl e, m')
                | (None, m') \<Rightarrow>
                    (Inr True, (logmsg DEBUG ''Nyx Notes loaded from local storage'' m')\<lparr>loaded := True\<rparr>))
           | _ \<Rightarrow> (Inr False, logmsg ERROR ''Invalid data structure'' m)))"

fun load_from :: "path list \<Rightarrow> memory \<Rightarrow> memory" where
  "load_from [] m =
     logmsg DEBUG ''Initialized new Nyx Notes storage'' (m\<lparr>nyx_notes := [], loaded := True\<rparr>)"
| "load_from (file_path # rest) m =
     (case file_at file_path m of
        None \<Rightarrow> load_from rest m
      | Some c \<Rightarrow>
          (case load_file c m of
             (Inr True, m') \<Rightarrow> m'
           | (Inr False, m') \<Rightarrow> load_from rest m'
           | (Inl e, m') \<Rightarrow>
               load_from rest
                 (logmsg ERROR (if e = JSONDecodeError then ''JSON decode error'' else ''Failed to load'') m')))"

definition load_notes :: "memory \<Rightarrow> exn option \<times> memory" where
  "load_notes m = (None, load_from [NotesFile, BackupFile] m)"

definition ensure_loaded :: "memory \<Rightarrow> exn option \<times> memory" where
  "ensure_loaded m = (if \<not> loaded m then load_notes m else (None, m))"

subsection \<open>The balance operations\<close>

text \<open>The statements under the lock in \<open>add_nyx_notes\<close> and \<open>set_nyx_notes\<close>.\<close>

definition add_locked :: "int \<Rightarrow> int \<Rightarrow> memory \<Rightarrow> int \<times> memory" where
  "add_locked user_id amount m =
     (let user_id_str = py_str user_id;
          old_total = dict_get (nyx_notes m) user_id_str 0;
          new_total = max 0 (old_total + amount)
      in (new_total, logmsg DEBUG ''User total changed''
                       (m\<lparr>nyx_notes := dict_set (nyx_notes m) user_id_str new_total\<rparr>)))"

definition set_locked :: "int \<Rightarrow> int \<Rightarrow> memory \<Rightarrow> int \<times> memory" where
  "set_locked user_id amount m =
     (let user_id_str = py_str user_id;
          amount' = max 0 amount
      in (amount', logmsg DEBUG ''User total set''
                     (m\<lparr>nyx_notes := dict_set (nyx_notes m) user_id_str amount'\<rparr>)))"

definition add_nyx_notes :: "faults \<Rightarrow> int \<Rightarrow> int \<Rightarrow> memory \<Rightarrow> (exn + int) \<times> memory" where
  "add_nyx_notes io user_id amount m =
     (case ensure_loaded m of
        (Some e, m0) \<Rightarrow> (Inl e, m0)
      | (None, m0) \<Rightarrow>
          (case add_locked user_id amount m0 of
             (new_total, m1) \<Rightarrow>
               (case save_notes io m1 of
                  (Some e, m2) \<Rightarrow> (Inl e, m2)
                | (None, m2) \<Rightarrow> (Inr new_total, m2))))"

definition get_nyx_notes :: "int \<Rightarrow> memory \<Rightarrow> (exn + int) \<times> memory" where
  "get_nyx_notes user_id m =
     (case ensure_loaded m of
        (Some e, m0) \<Rightarrow> (Inl e, m0)
      | (None, m0) \<Rightarrow> (Inr (dict_get (nyx_notes m0) (py_str user_id) 0), m0))"

definition set_nyx_notes :: "faults \<Rightarrow> int \<Rightarrow> int \<Rightarrow> memory \<Rightarrow> (exn + int) \<times> memory" where
  "set_nyx_notes io user_id amount m =
     (case ensure_loaded m of
        (Some e, m0) \<Rightarrow> (Inl e, m0)
      | (None, m0) \<Rightarrow>
          (case set_locked user_id amount m0 of
             (amount', m1) \<Rightarrow>
               (case save_notes io m1 of
                  (Some e, m2) \<Rightarrow> (Inl e, m2)
                | (None, m2) \<Rightarrow> (Inr amount', m2))))"

subsection \<open>get_leaderboard\<close>

text \<open>
  The list comprehension applies \<open>int(uid)\<close> to every key and raises at the first key it
  rejects. \<open>sorted(..., reverse=True)\<close> is CPython's stable sort between two reversals.
  \<open>xs[:limit]\<close> with a negative limit leaves that many elements off the end.
\<close>

fun int_keys :: "(unicode \<times> int) list \<Rightarrow> exn + (int \<times> int) list" where
  "int_keys [] = Inr []"
| "int_keys ((uid, points) # rest) =
     (case int_of_str uid of
        None \<Rightarrow> Inl ValueError
      | Some i \<Rightarrow> (case int_keys rest of Inl e \<Rightarrow> Inl e | Inr ps \<Rightarrow> Inr ((i, points) # ps)))"

definition sorted_reverse :: "('a \<Rightarrow> int) \<Rightarrow> 'a list \<Rightarrow> 'a list" where
  "sorted_reverse key xs = rev (sort_key key (rev xs))"

definition slice_to :: "int \<Rightarrow> 'a list \<Rightarrow> 'a list" where
  "slice_to limit xs =
     (if 0 \<le> limit then take (nat limit) xs else take (length xs - nat (- limit)) xs)"

definition get_leaderboard :: "int \<Rightarrow> memory \<Rightarrow> (exn + (int \<times> int) list) \<times> memory" where
  "get_leaderboard limit m =
     (case ensure_loaded m of
        (Some e, m0) \<Rightarrow> (Inl e, m0)
      | (None, m0) \<Rightarrow>
          (case int_keys (nyx_notes m0) of
             Inl e \<Rightarrow> (Inl e, m0)
           | Inr users \<Rightarrow> (Inr (slice_to limit (sorted_reverse snd users)), m0)))"


subsection \<open>Harness: a user's stored balance, and successive calls\<close>

definition balance_of :: "int \<Rightarrow> memory \<Rightarrow> int" where
  "balance_of user_id m = dict_get (nyx_notes m) (py_str user_id) 0"

fun add_seq :: "int \<Rightarrow> (faults \<times> int) list \<Rightarrow> memory \<Rightarrow> memory" where
  "add_seq user_id [] m = m"
| "add_seq user_id ((io, amount) # calls) m =
     add_seq user_id calls (snd (add_nyx_notes io user_id amount m))"

definition empty_store :: memory where
  "empty_store = \<lparr>nyx_notes = [], loaded = True, notes_file = None, backup_file = None,
     temp_file = None, logged = []\<rparr>"

text \<open>
  A file is intact when it is missing or holds a complete JSON document; a torn write is not.
\<close>

definition intact :: "content option \<Rightarrow> bool" where
  "intact f = (case f of None \<Rightarrow> True | Some (Document j) \<Rightarrow> True | Some _ \<Rightarrow> False)"

definition previous_snapshot :: "memory \<Rightarrow> content option" where
  "previous_snapshot m = (case notes_file m of None \<Rightarrow> backup_file m | Some c \<Rightarrow> Some c)"

definition save_fails :: "faults \<Rightarrow> memory \<Rightarrow> bool" where
  "save_fails io m = (fst (save_try io m) \<noteq> None)"

text \<open>One failing call, and a store with a canonical file and an older backup.\<close>

definition fail_at :: "stage list \<Rightarrow> faults" where
  "fail_at sts = \<lparr>fails = (\<lambda>s. s \<in> set sts), torn_empty = False\<rparr>"

definition sample_store :: memory where
  "sample_store = \<lparr>nyx_notes = [(py_str 7, 15)], loaded = True,
     notes_file = Some (json_dumps [(py_str 7, 10)]), backup_file = Some (json_dumps [(py_str 7, 5)]),
     temp_file = None, logged = []\<rparr>"

definition disk :: "memory \<Rightarrow> content option \<times> content option \<times> content option" where
  "disk m = (notes_file m, backup_file m, temp_file m)"

subsection \<open>Loading: a closed form, and the specification's wording\<close>

text \<open>
  The entries of a list that \<open>int\<close> converts, each under its key, and those it does not.
\<close>

definition coerce_entries :: "(unicode \<times> json) list \<Rightarrow> (unicode \<times> int) list" where
  "coerce_entries kvs =
     List.map_filter (\<lambda>(k, v). case py_int v of Inr n \<Rightarrow> Some (k, n) | Inl e \<Rightarrow> None) kvs"

definition dropped_entries :: "(unicode \<times> json) list \<Rightarrow> (unicode \<times> json) list" where
  "dropped_entries kvs = filter (\<lambda>(k, v). isl (py_int v)) kvs"

text \<open>
  A closed form of \<open>load_file\<close> and \<open>load_notes\<close>, proved below: \<open>load_file\<close>
  returns from a file exactly when the file holds a JSON object and \<open>int\<close> raises
  OverflowError on none of its values; \<open>load_notes\<close> keeps the entries of the first such
  file.
\<close>

definition taken :: "content option \<Rightarrow> (unicode \<times> json) list option" where
  "taken f =
     (case f of
        Some (Document (JObj kvs)) \<Rightarrow>
          if list_ex (\<lambda>(k, v). py_int v = Inl OverflowError) (py_dict kvs) then None
          else Some (py_dict kvs)
      | _ \<Rightarrow> None)"

definition load_taken :: "content option \<Rightarrow> content option \<Rightarrow> (unicode \<times> int) list" where
  "load_taken canonical backup =
     (case taken canonical of
        Some kvs \<Rightarrow> coerce_entries kvs
      | None \<Rightarrow> (case taken backup of Some kvs \<Rightarrow> coerce_entries kvs | None \<Rightarrow> []))"

text \<open>
  Loading as the specification words it, to compare with \<open>load_notes\<close>. A file is
  loaded unless it is missing, empty, unparseable or not a JSON object; the canonical file
  comes first, then the backup, then the empty mapping. Of the file that is loaded, every
  entry whose value cannot be coerced to an integer is dropped with a warning, and the
  others are kept.
\<close>

definition object_of :: "content option \<Rightarrow> (unicode \<times> json) list option" where
  "object_of f = (case f of Some (Document (JObj kvs)) \<Rightarrow> Some (py_dict kvs) | _ \<Rightarrow> None)"

definition loaded_object :: "content option \<Rightarrow> content option \<Rightarrow> (unicode \<times> json) list option" where
  "loaded_object canonical backup =
     (case object_of canonical of Some kvs \<Rightarrow> Some kvs | None \<Rightarrow> object_of backup)"

definition load_spec :: "content option \<Rightarrow> content option \<Rightarrow> (unicode \<times> int) list" where
  "load_spec canonical backup =
     (case loaded_object canonical backup of Some kvs \<Rightarrow> coerce_entries kvs | None \<Rightarrow> [])"

definition warnings_spec :: "content option \<Rightarrow> content option \<Rightarrow> nat" where
  "warnings_spec canonical backup =
     (case loaded_object canonical backup of Some kvs \<Rightarrow> length (dropped_entries kvs) | None \<Rightarrow> 0)"

definition warnings :: "memory \<Rightarrow> nat" where
  "warnings m = length (filter (\<lambda>e. e = (WARNING, ''Invalid data for user'')) (logged m))"

text \<open>
  A store whose canonical file is \<open>{"1": 5, "2": 1e400, "3": 6}\<close>, with no backup.
\<close>

definition overflow_store :: memory where
  "overflow_store = \<lparr>nyx_notes = [], loaded = False,
     notes_file = Some (Document (JObj [(ascii ''1'', JInt 5), (ascii ''2'', JFloat Infinite),
                                        (ascii ''3'', JInt 6)])),
     backup_file = None, temp_file = None, logged = []\<rparr>"

text \<open>A new \<open>Memory\<close> object over the same files, as \<open>__init__\<close> makes it.\<close>

definition restart :: "memory \<Rightarrow> memory" where
  "restart m = m\<lparr>nyx_notes := [], loaded := False, logged := []\<rparr>"

text \<open>The invariant of the store: no negative balance in memory or in a snapshot on disk.\<close>

definition file_ok :: "content option \<Rightarrow> bool" where
  "file_ok f =
     (case f of
        Some (Document (JObj kvs)) \<Rightarrow> list_all (\<lambda>(k, n). 0 \<le> n) (coerce_entries (py_dict kvs))
      | _ \<Rightarrow> True)"

definition store_ok :: "memory \<Rightarrow> bool" where
  "store_ok m =
     (list_all (\<lambda>(k, n). 0 \<le> n) (nyx_notes m) \<and> file_ok (notes_file m) \<and> file_ok (backup_file m))"

text \<open>
  The pairs the list comprehension of \<open>get_leaderboard\<close> builds when \<open>int\<close> accepts
  every key, and sample stores: the specification's example with its keys as written, in
  memory and on disk, and with numeric keys.
\<close>

definition users_of :: "(unicode \<times> int) list \<Rightarrow> (int \<times> int) list" where
  "users_of d = map (\<lambda>(uid, points). (the (int_of_str uid), points)) d"

definition letters :: "(unicode \<times> int) list" where
  "letters = [(ascii ''a'', 50), (ascii ''b'', 10), (ascii ''c'', 30), (ascii ''d'', 5)]"

definition letters_store :: memory where
  "letters_store = empty_store\<lparr>nyx_notes := letters\<rparr>"


definition board_store :: memory where
  "board_store =
     empty_store\<lparr>nyx_notes := [(ascii ''1'', 50), (ascii ''2'', 10), (ascii ''3'', 30),
                                  (ascii ''4'', 5)]\<rparr>"

section \<open>Properties\<close>

subsection \<open>Dictionaries, files and the log\<close>

lemma dict_get_dict_set_same: "dict_get (dict_set d k v) k x = v"
  by (induction d) (auto simp: dict_get_def)

lemma dict_get_dict_set_other: "k' \<noteq> k \<Longrightarrow> dict_get (dict_set d k v) k' x = dict_get d k' x"
  by (induction d) (auto simp: dict_get_def)

lemma map_of_dict_set: "map_of (dict_set d k v) = (map_of d)(k \<mapsto> v)"
  by (induction d) (auto simp: fun_eq_iff)

lemma keys_dict_set:
  "map fst (dict_set d k v) = (if k \<in> fst ` set d then map fst d else map fst d @ [k])"
  by (induction d) force+

lemma put_file_simps [simp]:
  "nyx_notes (put_file p c m) = nyx_notes m"
  "loaded (put_file p c m) = loaded m"
  "logged (put_file p c m) = logged m"
  "notes_file (put_file p c m) = (if p = NotesFile then c else notes_file m)"
  "backup_file (put_file p c m) = (if p = BackupFile then c else backup_file m)"
  "temp_file (put_file p c m) = (if p = TempFile then c else temp_file m)"
  by (cases p; simp add: put_file_def)+

lemma logmsg_simps [simp]:
  "nyx_notes (logmsg l s m) = nyx_notes m"
  "loaded (logmsg l s m) = loaded m"
  "notes_file (logmsg l s m) = notes_file m"
  "backup_file (logmsg l s m) = backup_file m"
  "temp_file (logmsg l s m) = temp_file m"
  "logged (logmsg l s m) = logged m @ [(l, s)]"
  by (simp_all add: logmsg_def)

lemma file_at_simps [simp]:
  "file_at NotesFile m = notes_file m"
  "file_at BackupFile m = backup_file m"
  "file_at TempFile m = temp_file m"
  by (simp_all add: file_at_def)

subsection \<open>What saving and loading leave alone\<close>

lemma save_try_mem:
  "nyx_notes (snd (save_try io m)) = nyx_notes m \<and> loaded (snd (save_try io m)) = loaded m"
  by (auto simp: save_try_def write_temp_def backup_existing_def attempt_def os_remove_def
      os_rename_def os_exists_def split: option.splits sum.splits prod.splits if_splits)

lemma save_notes_mem:
  "nyx_notes (snd (save_notes io m)) = nyx_notes m \<and> loaded (snd (save_notes io m)) = loaded m"
  using save_try_mem[of io m]
  by (auto simp: save_notes_def Let_def attempt_def os_rename_def os_exists_def
      split: option.splits sum.splits prod.splits if_splits)

lemma save_notes_no_raise: "fst (save_notes io m) = None"
  by (auto simp: save_notes_def Let_def split: option.splits sum.splits prod.splits)

lemma load_entries_loaded: "loaded (snd (load_entries kvs m)) = loaded m"
  by (induction kvs m rule: load_entries.induct) (auto split: sum.splits)

lemma load_from_loaded: "loaded (load_from ps m)"
  by (induction ps m rule: load_from.induct)
     (auto simp: load_file_def
       split: option.splits sum.splits prod.splits content.splits json.splits bool.splits)

lemma ensure_loaded_ok: "fst (ensure_loaded m) = None \<and> loaded (snd (ensure_loaded m))"
  by (simp add: ensure_loaded_def load_notes_def load_from_loaded del: load_from.simps)

lemma ensure_loaded_id: "loaded m \<Longrightarrow> ensure_loaded m = (None, m)"
  by (simp add: ensure_loaded_def)

subsection \<open>add_nyx_notes\<close>

lemma add_locked_balance:
  "fst (add_locked u d m) = max 0 (balance_of u m + d) \<and>
   balance_of u (snd (add_locked u d m)) = max 0 (balance_of u m + d) \<and>
   loaded (snd (add_locked u d m)) = loaded m"
  by (simp add: add_locked_def balance_of_def Let_def dict_get_dict_set_same)

lemma add_nyx_notes_unfold:
  "add_nyx_notes io u d m =
     (Inr (fst (add_locked u d (snd (ensure_loaded m)))),
      snd (save_notes io (snd (add_locked u d (snd (ensure_loaded m))))))"
  using ensure_loaded_ok[of m]
    save_notes_no_raise[of io "snd (add_locked u d (snd (ensure_loaded m)))"]
  by (auto simp: add_nyx_notes_def split: prod.splits option.splits)

lemma add_nyx_notes_step:
  "fst (add_nyx_notes io u d m) = Inr (max 0 (balance_of u (snd (ensure_loaded m)) + d)) \<and>
   balance_of u (snd (add_nyx_notes io u d m)) = max 0 (balance_of u (snd (ensure_loaded m)) + d) \<and>
   loaded (snd (add_nyx_notes io u d m))"
  using save_notes_mem[of io "snd (add_locked u d (snd (ensure_loaded m)))"]
    add_locked_balance[of u d "snd (ensure_loaded m)"] ensure_loaded_ok[of m]
  by (simp add: add_nyx_notes_unfold balance_of_def)

lemma add_seq_fold:
  "loaded m \<Longrightarrow>
   balance_of u (add_seq u calls m) = foldl (\<lambda>b d. max 0 (b + d)) (balance_of u m) (map snd calls)"
proof (induction calls arbitrary: m)
  case Nil
  then show ?case by simp
next
  case (Cons c calls)
  obtain io d where c: "c = (io, d)" by (cases c)
  from add_nyx_notes_step[of io u d m] Cons.prems
  have s: "balance_of u (snd (add_nyx_notes io u d m)) = max 0 (balance_of u m + d)"
    and l: "loaded (snd (add_nyx_notes io u d m))"
    by (simp_all add: ensure_loaded_id)
  show ?case using Cons.IH[OF l] s by (simp add: c)
qed

text \<open>
  Claim C1. For every user, every delta (of either sign) and every outcome of the save,
  \<open>add_nyx_notes\<close> returns \<open>max 0 (b + d)\<close> and stores it under the user's key, where
  \<open>b\<close> is the user's balance in the loaded store; and successive calls on a loaded store
  leave the left fold of \<open>\<lambda>b d. max 0 (b + d)\<close> over the deltas, so the clamp applies at
  every step.
\<close>

theorem add_nyx_notes_clamps:
  "fst (add_nyx_notes io u d m) = Inr (max 0 (balance_of u (snd (ensure_loaded m)) + d)) \<and>
   balance_of u (snd (add_nyx_notes io u d m)) = max 0 (balance_of u (snd (ensure_loaded m)) + d) \<and>
   balance_of u (add_seq u calls (snd (ensure_loaded m))) =
     foldl (\<lambda>b d. max 0 (b + d)) (balance_of u (snd (ensure_loaded m))) (map snd calls)"
  using add_nyx_notes_step[of io u d m] add_seq_fold[of "snd (ensure_loaded m)" u calls]
    ensure_loaded_ok[of m]
  by simp

text \<open>
  A user at 0 who receives 5, then -100, then 3 ends at 3: the second call stores 0, not -95.
\<close>

theorem add_nyx_notes_clamps_witness:
  "balance_of 7 (add_seq 7 [(no_faults, 5), (no_faults, - 100), (no_faults, 3)] empty_store) = 3"
  using add_nyx_notes_clamps[of no_faults 7 0 empty_store
      "[(no_faults, 5), (no_faults, - 100), (no_faults, 3)]"]
  by (simp add: ensure_loaded_def empty_store_def balance_of_def dict_get_def)

lemma save_try_cases:
  "save_try io m =
     (if fails io Makedirs \<or> fails io OpenTemp then (Some OSError, m)
      else if fails io WriteTemp
        then (Some OSError, m\<lparr>temp_file := Some (if torn_empty io then Blank else Malformed)\<rparr>)
      else if notes_file m \<noteq> None \<and> backup_file m \<noteq> None \<and> fails io RemoveBackup
        then (Some OSError, m\<lparr>temp_file := Some (json_dumps (nyx_notes m))\<rparr>)
      else if notes_file m \<noteq> None \<and> fails io RenameToBackup
        then (Some OSError, m\<lparr>temp_file := Some (json_dumps (nyx_notes m)), backup_file := None\<rparr>)
      else if fails io RenameToNotes
        then (Some OSError,
              m\<lparr>temp_file := Some (json_dumps (nyx_notes m)),
                backup_file := (if notes_file m = None then backup_file m else notes_file m),
                notes_file := None\<rparr>)
      else (None,
            logmsg DEBUG ''Nyx Notes saved successfully''
              (m\<lparr>temp_file := None,
                 backup_file := (if notes_file m = None then backup_file m else notes_file m),
                 notes_file := Some (json_dumps (nyx_notes m))\<rparr>)))"
  by (auto simp: save_try_def write_temp_def backup_existing_def attempt_def os_remove_def
      os_rename_def os_exists_def put_file_def logmsg_def)


subsection \<open>The save protocol\<close>

lemma save_notes_cases:
  "save_notes io m =
     (case save_try io m of
        (None, m') \<Rightarrow> (None, m')
      | (Some e, m') \<Rightarrow>
          if backup_file m' \<noteq> None \<and> notes_file m' = None then
            (if fails io RestoreBackup
             then (None, logmsg ERROR ''Failed to restore backup''
                           (logmsg ERROR ''Failed to save Nyx Notes'' m'))
             else (None, logmsg DEBUG ''Restored from backup file''
                           ((logmsg ERROR ''Failed to save Nyx Notes'' m')
                              \<lparr>notes_file := backup_file m', backup_file := None\<rparr>)))
          else (None, logmsg ERROR ''Failed to save Nyx Notes'' m'))"
  by (auto simp: save_notes_def Let_def attempt_def os_rename_def os_exists_def put_file_def
      logmsg_def split: prod.splits option.splits)

lemma intact_dumps [simp]: "intact (Some (json_dumps d))"
  by (simp add: intact_def json_dumps_def)

lemma intact_None [simp]: "intact None"
  by (simp add: intact_def)

lemma save_try_canonical:
  "notes_file (snd (save_try io m)) \<in> {None, notes_file m, Some (json_dumps (nyx_notes m))}"
  by (simp add: save_try_cases)

lemma save_try_intact:
  "intact (notes_file m) \<Longrightarrow> intact (notes_file (snd (save_try io m)))"
  by (simp add: save_try_cases)

lemma save_try_keeps_old:
  "notes_file (snd (save_try io m)) = None \<Longrightarrow> notes_file m \<noteq> None \<Longrightarrow>
   backup_file (snd (save_try io m)) = notes_file m"
  by (auto simp: save_try_cases split: if_splits)

lemma save_try_backup_intact:
  "intact (notes_file m) \<Longrightarrow> intact (backup_file m) \<Longrightarrow> intact (backup_file (snd (save_try io m)))"
  by (simp add: save_try_cases)

lemma save_notes_canonical:
  "notes_file (snd (save_notes io m)) \<in>
     {None, notes_file m, backup_file m, Some (json_dumps (nyx_notes m))}"
  by (simp add: save_notes_cases save_try_cases)

lemma save_notes_intact:
  "intact (notes_file m) \<Longrightarrow> intact (backup_file m) \<Longrightarrow>
   intact (notes_file (snd (save_notes io m))) \<and> intact (backup_file (snd (save_notes io m)))"
  by (simp add: save_notes_cases save_try_cases)

lemma save_notes_done:
  "temp_file (snd (save_notes no_faults m)) = None \<and>
   notes_file (snd (save_notes no_faults m)) = Some (json_dumps (nyx_notes m)) \<and>
   backup_file (snd (save_notes no_faults m)) =
     (if notes_file m = None then backup_file m else notes_file m)"
  by (simp add: save_notes_cases save_try_cases no_faults_def)

lemma failed_save_canonical:
  "save_fails io m \<Longrightarrow>
   (notes_file m \<noteq> None \<longrightarrow> \<not> (fails io RenameToNotes \<and> fails io RestoreBackup) \<longrightarrow>
      notes_file (snd (save_notes io m)) = notes_file m) \<and>
   (\<not> fails io RestoreBackup \<longrightarrow> notes_file (snd (save_notes io m)) = previous_snapshot m)"
  by (auto simp add: save_fails_def save_notes_cases save_try_cases previous_snapshot_def
      split: if_splits option.splits)



lemma disk_simps [simp]:
  "disk (logmsg l s m) = disk m"
  "disk (m\<lparr>nyx_notes := d\<rparr>) = disk m"
  "disk (m\<lparr>loaded := b\<rparr>) = disk m"
  by (simp_all add: disk_def)

lemma load_entries_disk: "disk (snd (load_entries kvs m)) = disk m"
  by (induction kvs m rule: load_entries.induct) (auto split: sum.splits)

lemma load_file_disk: "disk (snd (load_file c m)) = disk m"
proof (cases c)
  case (Document j)
  show ?thesis
  proof (cases j)
    case (JObj kvs)
    obtain e m' where l: "load_entries (py_dict kvs) (m\<lparr>nyx_notes := []\<rparr>) = (e, m')"
      by (cases "load_entries (py_dict kvs) (m\<lparr>nyx_notes := []\<rparr>)")
    with load_entries_disk[of "py_dict kvs" "m\<lparr>nyx_notes := []\<rparr>"] have "disk m' = disk m"
      by simp
    with l Document JObj show ?thesis
      by (cases e) (simp_all add: load_file_def)
  qed (simp_all add: load_file_def Document)
qed (simp_all add: load_file_def)

lemma load_from_disk: "disk (load_from ps m) = disk m"
proof (induction ps arbitrary: m)
  case Nil
  show ?case by simp
next
  case (Cons file_path rest)
  show ?case
  proof (cases "file_at file_path m")
    case None
    with Cons show ?thesis by simp
  next
    case (Some c)
    obtain r m' where r: "load_file c m = (r, m')" by (cases "load_file c m")
    with load_file_disk[of c m] have f: "disk m' = disk m" by simp
    show ?thesis
    proof (cases r)
      case (Inl e)
      with Cons f Some r show ?thesis by simp
    next
      case (Inr b)
      with Cons f Some r show ?thesis by (cases b) simp_all
    qed
  qed
qed

lemma ensure_loaded_disk: "disk (snd (ensure_loaded m)) = disk m"
  by (simp add: ensure_loaded_def load_notes_def load_from_disk del: load_from.simps)

lemma add_locked_disk: "disk (snd (add_locked u d m)) = disk m"
  by (simp add: add_locked_def Let_def)

lemma set_locked_disk: "disk (snd (set_locked u d m)) = disk m"
  by (simp add: set_locked_def Let_def)


lemma set_nyx_notes_unfold:
  "set_nyx_notes io u v m =
     (Inr (fst (set_locked u v (snd (ensure_loaded m)))),
      snd (save_notes io (snd (set_locked u v (snd (ensure_loaded m))))))"
  using ensure_loaded_ok[of m]
    save_notes_no_raise[of io "snd (set_locked u v (snd (ensure_loaded m)))"]
  by (auto simp: set_nyx_notes_def split: prod.splits option.splits)

lemma disk_eqD:
  "disk m' = disk m \<Longrightarrow>
   notes_file m' = notes_file m \<and> backup_file m' = backup_file m \<and> temp_file m' = temp_file m"
  by (simp add: disk_def)

lemma previous_snapshot_disk: "disk m' = disk m \<Longrightarrow> previous_snapshot m' = previous_snapshot m"
  by (simp add: previous_snapshot_def disk_def split: option.splits)

text \<open>
  Claim C2. A save without faults writes the snapshot to the temporary file, moves an
  existing canonical file to the backup path (after removing the old backup) and moves the
  temporary file to the canonical path. The state of \<open>save_try\<close> under any fault
  pattern is the state in which the protocol stops at that stage, which is also where a
  crash at that stage leaves the files: there the canonical file is missing, the previous
  canonical file or the new snapshot, so it is never a torn write; when it is missing
  the previous canonical file is at the backup path. The same holds once the handler of
  \<open>save_notes\<close> has run, which may also promote the old backup.
\<close>

theorem save_notes_never_partial:
  "intact (notes_file m) \<Longrightarrow> intact (backup_file m) \<Longrightarrow>
   temp_file (snd (save_notes no_faults m)) = None \<and>
   notes_file (snd (save_notes no_faults m)) = Some (json_dumps (nyx_notes m)) \<and>
   backup_file (snd (save_notes no_faults m)) =
     (if notes_file m = None then backup_file m else notes_file m) \<and>
   notes_file (snd (save_try io m)) \<in> {None, notes_file m, Some (json_dumps (nyx_notes m))} \<and>
   intact (notes_file (snd (save_try io m))) \<and>
   (notes_file (snd (save_try io m)) = None \<longrightarrow> notes_file m \<noteq> None \<longrightarrow>
      backup_file (snd (save_try io m)) = notes_file m) \<and>
   notes_file (snd (save_notes io m)) \<in>
     {None, notes_file m, backup_file m, Some (json_dumps (nyx_notes m))} \<and>
   intact (notes_file (snd (save_notes io m)))"
  using save_notes_done[of m] save_try_canonical[of io m] save_try_intact[of m io]
    save_try_keeps_old[of io m] save_notes_canonical[of io m] save_notes_intact[of m io]
  by blast

text \<open>
  On a store with a canonical file and a backup: stopping before the final rename leaves no
  canonical file and the previous one at the backup path; a torn write of the temporary
  file leaves the canonical file as it was.
\<close>

theorem save_notes_never_partial_witness:
  "intact (notes_file sample_store) \<and> intact (backup_file sample_store) \<and>
   notes_file (snd (save_try (fail_at [RenameToNotes]) sample_store)) = None \<and>
   backup_file (snd (save_try (fail_at [RenameToNotes]) sample_store)) =
     Some (json_dumps [(py_str 7, 10)]) \<and>
   notes_file (snd (save_try (fail_at [WriteTemp]) sample_store)) =
     Some (json_dumps [(py_str 7, 10)]) \<and>
   temp_file (snd (save_try (fail_at [WriteTemp]) sample_store)) = Some Malformed \<and>
   notes_file (snd (save_notes no_faults sample_store)) = Some (json_dumps [(py_str 7, 15)]) \<and>
   backup_file (snd (save_notes no_faults sample_store)) = Some (json_dumps [(py_str 7, 10)])"
  using save_notes_never_partial[of sample_store "fail_at [RenameToNotes]"]
  by (simp add: sample_store_def fail_at_def save_try_cases)

text \<open>
  Claim C5. Under every fault pattern \<open>add_nyx_notes\<close> and \<open>set_nyx_notes\<close> return the
  new value (no exception reaches the caller) and the in-memory mapping keeps the mutation.
  When the save fails, a canonical file that existed is unchanged, unless both the final
  rename and the restore of the backup failed; and when the restore does not fail, the
  canonical path holds the previous snapshot: the canonical file if there was one, else the
  backup.
\<close>

theorem failed_save_is_swallowed:
  "fst (add_nyx_notes io u d m) = Inr (max 0 (balance_of u (snd (ensure_loaded m)) + d)) \<and>
   nyx_notes (snd (add_nyx_notes io u d m)) =
     dict_set (nyx_notes (snd (ensure_loaded m))) (py_str u)
       (max 0 (balance_of u (snd (ensure_loaded m)) + d)) \<and>
   fst (set_nyx_notes io u v m) = Inr (max 0 v) \<and>
   nyx_notes (snd (set_nyx_notes io u v m)) =
     dict_set (nyx_notes (snd (ensure_loaded m))) (py_str u) (max 0 v) \<and>
   (save_fails io (snd (add_locked u d (snd (ensure_loaded m)))) \<longrightarrow>
      (notes_file m \<noteq> None \<longrightarrow> \<not> (fails io RenameToNotes \<and> fails io RestoreBackup) \<longrightarrow>
         notes_file (snd (add_nyx_notes io u d m)) = notes_file m) \<and>
      (\<not> fails io RestoreBackup \<longrightarrow>
         notes_file (snd (add_nyx_notes io u d m)) = previous_snapshot m)) \<and>
   (save_fails io (snd (set_locked u v (snd (ensure_loaded m)))) \<longrightarrow>
      (notes_file m \<noteq> None \<longrightarrow> \<not> (fails io RenameToNotes \<and> fails io RestoreBackup) \<longrightarrow>
         notes_file (snd (set_nyx_notes io u v m)) = notes_file m) \<and>
      (\<not> fails io RestoreBackup \<longrightarrow>
         notes_file (snd (set_nyx_notes io u v m)) = previous_snapshot m))"
proof -
  let ?m0 = "snd (ensure_loaded m)"
  let ?a = "snd (add_locked u d ?m0)"
  let ?s = "snd (set_locked u v ?m0)"
  have da: "disk ?a = disk m" and ds: "disk ?s = disk m"
    by (simp_all add: add_locked_disk set_locked_disk ensure_loaded_disk)
  have r: "fst (add_locked u d ?m0) = max 0 (balance_of u ?m0 + d)"
    "fst (set_locked u v ?m0) = max 0 v"
    "nyx_notes ?a = dict_set (nyx_notes ?m0) (py_str u) (max 0 (balance_of u ?m0 + d))"
    "nyx_notes ?s = dict_set (nyx_notes ?m0) (py_str u) (max 0 v)"
    by (simp_all add: add_locked_def set_locked_def Let_def balance_of_def)
  show ?thesis
    using failed_save_canonical[of io ?a] failed_save_canonical[of io ?s]
      disk_eqD[OF da] disk_eqD[OF ds] previous_snapshot_disk[OF da] previous_snapshot_disk[OF ds]
      save_notes_mem[of io ?a] save_notes_mem[of io ?s] r
    by (simp add: add_nyx_notes_unfold set_nyx_notes_unfold)
qed

text \<open>
  The final rename fails during \<open>add_nyx_notes(7, 5)\<close> on a balance of 15: the call returns
  20, memory holds 20, and the canonical file is the previous snapshot, restored from the
  backup path.
\<close>

theorem failed_save_is_swallowed_witness:
  "save_fails (fail_at [RenameToNotes]) (snd (add_locked 7 5 (snd (ensure_loaded sample_store)))) \<and>
   fst (add_nyx_notes (fail_at [RenameToNotes]) 7 5 sample_store) = Inr 20 \<and>
   nyx_notes (snd (add_nyx_notes (fail_at [RenameToNotes]) 7 5 sample_store)) = [(py_str 7, 20)] \<and>
   notes_file (snd (add_nyx_notes (fail_at [RenameToNotes]) 7 5 sample_store)) =
     Some (json_dumps [(py_str 7, 10)])"
  using failed_save_is_swallowed[of "fail_at [RenameToNotes]" 7 5 sample_store 0]
  by (simp add: sample_store_def fail_at_def save_fails_def save_try_cases ensure_loaded_def
      add_locked_def Let_def balance_of_def dict_get_def previous_snapshot_def)

subsection \<open>load_notes\<close>

lemma dict_set_fresh: "k \<notin> fst ` set d \<Longrightarrow> dict_set d k v = d @ [(k, v)]"
  by (induction d) auto

lemma distinct_dict_set: "distinct (map fst d) \<Longrightarrow> distinct (map fst (dict_set d k v))"
  by (simp add: keys_dict_set)

lemma set_dict_set: "set (dict_set d k v) \<subseteq> insert (k, v) (set d)"
  by (induction d) (auto split: if_splits)

lemma foldl_dict_set_distinct:
  "distinct (map fst d) \<Longrightarrow> distinct (map fst (foldl (\<lambda>d (k, v). dict_set d k v) d xs))"
  by (induction xs arbitrary: d) (auto simp: distinct_dict_set)

lemma foldl_dict_set_subset:
  "set (foldl (\<lambda>d (k, v). dict_set d k v) d xs) \<subseteq> set d \<union> set xs"
proof (induction xs arbitrary: d)
  case Nil
  show ?case by simp
next
  case (Cons x xs)
  obtain k v where x: "x = (k, v)" by (cases x)
  from Cons[of "dict_set d k v"] set_dict_set[of d k v] show ?case
    by (auto simp: x)
qed

lemma foldl_dict_set_append:
  "distinct (map fst (d @ xs)) \<Longrightarrow> foldl (\<lambda>d (k, v). dict_set d k v) d xs = d @ xs"
proof (induction xs arbitrary: d)
  case Nil
  show ?case by simp
next
  case (Cons x xs)
  obtain k v where x: "x = (k, v)" by (cases x)
  from Cons.prems have "k \<notin> fst ` set d" by (auto simp: x)
  then have s: "dict_set d k v = d @ [(k, v)]" by (rule dict_set_fresh)
  from Cons.prems have "distinct (map fst ((d @ [(k, v)]) @ xs))" by (simp add: x)
  from Cons.IH[OF this] show ?case by (simp add: x s)
qed

lemma distinct_py_dict: "distinct (map fst (py_dict kvs))"
  unfolding py_dict_def by (rule foldl_dict_set_distinct) simp

lemma set_py_dict: "set (py_dict kvs) \<subseteq> set kvs"
  unfolding py_dict_def using foldl_dict_set_subset[of "[]" kvs] by simp

lemma py_dict_distinct: "distinct (map fst kvs) \<Longrightarrow> py_dict kvs = kvs"
  unfolding py_dict_def using foldl_dict_set_append[of "[]" kvs] by simp

lemma py_int_errors: "py_int v = Inl e \<Longrightarrow> e = ValueError \<or> e = TypeError \<or> e = OverflowError"
  by (induction v rule: py_int.induct) (auto split: option.splits)


lemma load_entries_raises:
  "fst (load_entries kvs m) =
     (if list_ex (\<lambda>(k, v). py_int v = Inl OverflowError) kvs then Some OverflowError else None)"
proof (induction kvs m rule: load_entries.induct)
  case (1 m)
  show ?case by simp
next
  case (2 user_id points rest m)
  show ?case
  proof (cases "py_int points")
    case (Inl e)
    with py_int_errors[OF Inl] 2 show ?thesis by auto
  next
    case (Inr n)
    with 2 show ?thesis by simp
  qed
qed

lemma coerce_entries_Cons:
  "coerce_entries ((k, v) # kvs) =
     (case py_int v of Inr n \<Rightarrow> (k, n) # coerce_entries kvs | Inl e \<Rightarrow> coerce_entries kvs)"
  by (simp add: coerce_entries_def map_filter_simps split: sum.splits)

lemma coerce_entries_Nil [simp]: "coerce_entries [] = []"
  by (simp add: coerce_entries_def map_filter_simps)

lemma coerce_entries_mem:
  "(k, n) \<in> set (coerce_entries kvs) \<Longrightarrow> \<exists>v. (k, v) \<in> set kvs \<and> py_int v = Inr n"
proof (induction kvs)
  case Nil
  then show ?case by simp
next
  case (Cons x kvs)
  obtain k' v' where x: "x = (k', v')" by (cases x)
  show ?case
  proof (cases "py_int v'")
    case (Inl e)
    with Cons x show ?thesis by (auto simp: coerce_entries_Cons)
  next
    case (Inr n')
    with Cons x show ?thesis by (auto simp: coerce_entries_Cons)
  qed
qed

lemma keys_coerce_entries: "fst ` set (coerce_entries kvs) \<subseteq> fst ` set kvs"
  using coerce_entries_mem by force

lemma distinct_coerce_entries:
  "distinct (map fst kvs) \<Longrightarrow> distinct (map fst (coerce_entries kvs))"
proof (induction kvs)
  case Nil
  show ?case by simp
next
  case (Cons x kvs)
  obtain k v where x: "x = (k, v)" by (cases x)
  from Cons.prems have k: "k \<notin> fst ` set kvs" and d: "distinct (map fst kvs)"
    by (simp_all add: x)
  from k keys_coerce_entries[of kvs] have "k \<notin> fst ` set (coerce_entries kvs)" by blast
  with Cons.IH[OF d] show ?case
    by (cases "py_int v") (simp_all add: x coerce_entries_Cons)
qed

lemma load_entries_notes:
  "\<not> list_ex (\<lambda>(k, v). py_int v = Inl OverflowError) kvs \<Longrightarrow>
   nyx_notes (snd (load_entries kvs m)) =
     foldl (\<lambda>d (k, n). dict_set d k n) (nyx_notes m) (coerce_entries kvs)"
proof (induction kvs m rule: load_entries.induct)
  case (1 m)
  show ?case by simp
next
  case (2 user_id points rest m)
  show ?case
  proof (cases "py_int points")
    case (Inl e)
    with py_int_errors[OF Inl] 2 show ?thesis by (auto simp: coerce_entries_Cons)
  next
    case (Inr n)
    with 2 show ?thesis by (simp add: coerce_entries_Cons)
  qed
qed

lemma load_entries_warnings:
  "\<not> list_ex (\<lambda>(k, v). py_int v = Inl OverflowError) kvs \<Longrightarrow>
   warnings (snd (load_entries kvs m)) = warnings m + length (dropped_entries kvs)"
proof (induction kvs m rule: load_entries.induct)
  case (1 m)
  show ?case by (simp add: dropped_entries_def)
next
  case (2 user_id points rest m)
  show ?case
  proof (cases "py_int points")
    case (Inl e)
    with py_int_errors[OF Inl] 2 show ?thesis
      by (auto simp: dropped_entries_def warnings_def)
  next
    case (Inr n)
    with 2 show ?thesis by (simp add: dropped_entries_def warnings_def)
  qed
qed


lemma load_entries_warnings_mono: "warnings m \<le> warnings (snd (load_entries kvs m))"
proof (induction kvs m rule: load_entries.induct)
  case (1 m)
  show ?case by simp
next
  case (2 user_id points rest m)
  show ?case
  proof (cases "py_int points")
    case (Inl e)
    with 2 show ?thesis by (cases "e = ValueError \<or> e = TypeError") (auto simp: warnings_def)
  next
    case (Inr n)
    with 2 show ?thesis by (simp add: warnings_def)
  qed
qed

lemma taken_SomeD:
  "taken f = Some kvs \<Longrightarrow>
   \<exists>kvs0. f = Some (Document (JObj kvs0)) \<and> kvs = py_dict kvs0 \<and>
          \<not> list_ex (\<lambda>(k, v). py_int v = Inl OverflowError) kvs"
  by (auto simp: taken_def split: option.splits content.splits json.splits if_splits)

lemma load_file_taken:
  assumes "taken (Some c) = Some kvs"
  shows "fst (load_file c m) = Inr True \<and>
         nyx_notes (snd (load_file c m)) = coerce_entries kvs \<and>
         warnings (snd (load_file c m)) = warnings m + length (dropped_entries kvs)"
proof -
  from taken_SomeD[OF assms] obtain kvs0 where
    c: "c = Document (JObj kvs0)" and kvs: "kvs = py_dict kvs0" and
    ok: "\<not> list_ex (\<lambda>(k, v). py_int v = Inl OverflowError) kvs"
    by auto
  let ?m0 = "m\<lparr>nyx_notes := []\<rparr>"
  obtain e m' where l: "load_entries kvs ?m0 = (e, m')" by (cases "load_entries kvs ?m0")
  from load_entries_raises[of kvs ?m0] ok l have e: "e = None" by simp
  from distinct_py_dict[of kvs0] have "distinct (map fst (coerce_entries kvs))"
    unfolding kvs by (rule distinct_coerce_entries)
  then have "foldl (\<lambda>d (k, n). dict_set d k n) [] (coerce_entries kvs) = coerce_entries kvs"
    using foldl_dict_set_append[of "[]" "coerce_entries kvs"] by simp
  with load_entries_notes[OF ok, of ?m0] l have n: "nyx_notes m' = coerce_entries kvs" by simp
  from load_entries_warnings[OF ok, of ?m0] l
  have w: "warnings m' = warnings m + length (dropped_entries kvs)" by (simp add: warnings_def)
  from l e n w show ?thesis
    unfolding c load_file_def kvs by (simp add: warnings_def)
qed

lemma load_file_rejected:
  assumes "taken (Some c) = None"
  shows "fst (load_file c m) \<noteq> Inr True \<and> warnings m \<le> warnings (snd (load_file c m))"
proof (cases c)
  case (Document j)
  show ?thesis
  proof (cases j)
    case (JObj kvs0)
    let ?m0 = "m\<lparr>nyx_notes := []\<rparr>"
    obtain e m' where l: "load_entries (py_dict kvs0) ?m0 = (e, m')"
      by (cases "load_entries (py_dict kvs0) ?m0")
    from assms Document JObj
    have "list_ex (\<lambda>(k, v). py_int v = Inl OverflowError) (py_dict kvs0)"
      by (simp add: taken_def split: if_splits)
    with load_entries_raises[of "py_dict kvs0" ?m0] l have e: "e = Some OverflowError" by simp
    from load_entries_warnings_mono[of ?m0 "py_dict kvs0"] l have "warnings m \<le> warnings m'"
      by (simp add: warnings_def)
    with l e Document JObj show ?thesis
      by (simp add: load_file_def)
  qed (simp_all add: load_file_def Document warnings_def)
qed (simp_all add: load_file_def warnings_def)

lemma load_from_taken:
  assumes "taken (file_at p m) = Some kvs"
  shows "nyx_notes (load_from (p # rest) m) = coerce_entries kvs \<and>
         warnings (load_from (p # rest) m) = warnings m + length (dropped_entries kvs)"
proof -
  from taken_SomeD[OF assms] obtain c where c: "file_at p m = Some c" by auto
  obtain r m' where r: "load_file c m = (r, m')" by (cases "load_file c m")
  from load_file_taken[of c kvs m] assms c r show ?thesis by simp
qed

lemma load_from_rejected:
  assumes "taken (file_at p m) = None"
  shows "\<exists>m'. load_from (p # rest) m = load_from rest m' \<and> disk m' = disk m \<and>
              warnings m \<le> warnings m'"
proof (cases "file_at p m")
  case None
  then show ?thesis by auto
next
  case (Some c)
  obtain r m' where r: "load_file c m = (r, m')" by (cases "load_file c m")
  from load_file_rejected[of c m] load_file_disk[of c m] assms Some r
  have f: "r \<noteq> Inr True" "disk m' = disk m" "warnings m \<le> warnings m'" by simp_all
  show ?thesis
  proof (cases r)
    case (Inl e)
    with Some r f show ?thesis
      by (intro exI[of _ "logmsg ERROR (if e = JSONDecodeError then ''JSON decode error'' else ''Failed to load'') m'"])
         (simp add: warnings_def)
  next
    case (Inr b)
    with f have "b = False" by simp
    with Inr Some r f show ?thesis by (intro exI[of _ m']) simp
  qed
qed

lemma load_from_Nil_notes: "nyx_notes (load_from [] m) = [] \<and> warnings (load_from [] m) = warnings m"
  by (simp add: warnings_def)

lemma load_notes_taken:
  "nyx_notes (snd (load_notes m)) = load_taken (notes_file m) (backup_file m)"
proof (cases "taken (notes_file m)")
  case (Some kvs)
  with load_from_taken[of NotesFile m kvs "[BackupFile]"] show ?thesis
    by (simp add: load_notes_def load_taken_def del: load_from.simps)
next
  case None
  with load_from_rejected[of NotesFile m "[BackupFile]"] obtain m' where
    m': "load_from [NotesFile, BackupFile] m = load_from [BackupFile] m'" "disk m' = disk m"
    by auto
  from m'(2) have b: "backup_file m' = backup_file m" by (simp add: disk_def)
  show ?thesis
  proof (cases "taken (backup_file m)")
    case (Some kvs)
    with load_from_taken[of BackupFile m' kvs "[]"] b None m'(1) show ?thesis
      by (simp add: load_notes_def load_taken_def del: load_from.simps)
  next
    case None2: None
    with load_from_rejected[of BackupFile m' "[]"] b obtain m'' where
      "load_from [BackupFile] m' = load_from [] m''" by auto
    with None None2 m'(1) show ?thesis
      by (simp add: load_notes_def load_taken_def)
  qed
qed

lemma load_notes_warnings:
  "taken (notes_file m) = Some kvs \<Longrightarrow>
   warnings (snd (load_notes m)) = warnings m + length (dropped_entries kvs)"
  using load_from_taken[of NotesFile m kvs "[BackupFile]"]
  by (simp add: load_notes_def del: load_from.simps)

lemma load_notes_warnings_backup:
  assumes "taken (notes_file m) = None" "taken (backup_file m) = Some kvs"
  shows "warnings m + length (dropped_entries kvs) \<le> warnings (snd (load_notes m))"
proof -
  from load_from_rejected[of NotesFile m "[BackupFile]"] assms(1) obtain m' where
    m': "load_from [NotesFile, BackupFile] m = load_from [BackupFile] m'" "disk m' = disk m"
      "warnings m \<le> warnings m'"
    by auto
  from m'(2) have b: "backup_file m' = backup_file m" by (simp add: disk_def)
  with load_from_taken[of BackupFile m' kvs "[]"] assms(2) m' show ?thesis
    by (simp add: load_notes_def del: load_from.simps)
qed


lemma load_notes_ok: "fst (load_notes m) = None \<and> loaded (snd (load_notes m))"
  by (simp add: load_notes_def load_from_loaded del: load_from.simps)

lemma taken_object_of:
  "taken f = (case object_of f of
                None \<Rightarrow> None
              | Some kvs \<Rightarrow> if list_ex (\<lambda>(k, v). py_int v = Inl OverflowError) kvs then None
                            else Some kvs)"
  by (simp add: taken_def object_of_def split: option.splits content.splits json.splits)

lemma load_notes_agrees_without_overflow:
  assumes "\<forall>kvs. object_of (notes_file m) = Some kvs \<longrightarrow>
             \<not> list_ex (\<lambda>(k, v). py_int v = Inl OverflowError) kvs"
    and "\<forall>kvs. object_of (backup_file m) = Some kvs \<longrightarrow>
             \<not> list_ex (\<lambda>(k, v). py_int v = Inl OverflowError) kvs"
  shows "nyx_notes (snd (load_notes m)) = load_spec (notes_file m) (backup_file m)"
proof -
  from assms have "taken (notes_file m) = object_of (notes_file m)"
    "taken (backup_file m) = object_of (backup_file m)"
    by (simp_all add: taken_object_of split: option.splits)
  then show ?thesis
    by (simp add: load_notes_taken load_taken_def load_spec_def loaded_object_def
        split: option.splits)
qed

text \<open>
  Claim C6, at the canonical file \<open>{"1": 5, "2": 1e400, "3": 6}\<close> with no backup. The
  file is a JSON object, so the specification has it loaded with the entry of key 2 dropped
  under one warning, which leaves \<open>{"1": 5, "3": 6}\<close>. In \<open>load_notes\<close> the
  OverflowError of \<open>int(inf)\<close> passes the inner handler, which names ValueError and
  TypeError only: the whole file is given up, the store is left empty, and no warning about
  an entry is logged. \<open>load_notes\<close> still raises nothing.
\<close>

theorem load_notes_overflow_discards_file:
  "object_of (notes_file overflow_store) =
     Some [(ascii ''1'', JInt 5), (ascii ''2'', JFloat Infinite), (ascii ''3'', JInt 6)] \<and>
   load_spec (notes_file overflow_store) (backup_file overflow_store) =
     [(ascii ''1'', 5), (ascii ''3'', 6)] \<and>
   warnings_spec (notes_file overflow_store) (backup_file overflow_store) = 1 \<and>
   fst (load_notes overflow_store) = None \<and>
   nyx_notes (snd (load_notes overflow_store)) = [] \<and>
   warnings (snd (load_notes overflow_store)) = 0"
  by (simp add: overflow_store_def object_of_def loaded_object_def load_spec_def
      warnings_spec_def py_dict_def ascii_def coerce_entries_def dropped_entries_def
      map_filter_simps load_notes_def load_file_def warnings_def)

lemma coerce_entries_dumps: "coerce_entries (map (\<lambda>(k, v). (k, JInt v)) M) = M"
  by (induction M) (auto simp: coerce_entries_Cons)

lemma no_overflow_dumps:
  "\<not> list_ex (\<lambda>(k, v). py_int v = Inl OverflowError) (map (\<lambda>(k, v). (k, JInt v)) M)"
  by (induction M) auto

lemma keys_dumps: "map fst (map (\<lambda>(k, v). (k, JInt v)) M) = map fst M"
  by (induction M) auto

lemma taken_dumps:
  assumes "distinct (map fst M)"
  shows "taken (Some (json_dumps M)) = Some (map (\<lambda>(k, v). (k, JInt v)) M)"
proof -
  from assms have "distinct (map fst (map (\<lambda>(k, v). (k, JInt v)) M))"
    by (simp only: keys_dumps)
  then have "py_dict (map (\<lambda>(k, v). (k, JInt v)) M) = map (\<lambda>(k, v). (k, JInt v)) M"
    by (rule py_dict_distinct)
  with no_overflow_dumps[of M] show ?thesis
    by (simp add: taken_def json_dumps_def)
qed

lemma restart_files:
  "notes_file (restart m) = notes_file m \<and> backup_file (restart m) = backup_file m"
  by (simp add: restart_def)

text \<open>
  Claim C3. For every mapping \<open>M\<close> (a dict: an association list with distinct keys) of
  strings to integers, of either sign, a save without faults of a store holding \<open>M\<close>
  followed by \<open>load_notes\<close> in a new \<open>Memory\<close> object over the same files gives
  exactly \<open>M\<close>, in the same order.
\<close>

theorem save_then_load_roundtrip:
  "distinct (map fst M) \<Longrightarrow>
   nyx_notes (snd (load_notes (restart (snd (save_notes no_faults (m\<lparr>nyx_notes := M\<rparr>)))))) = M"
  using save_notes_done[of "m\<lparr>nyx_notes := M\<rparr>"] taken_dumps[of M]
  by (simp add: load_notes_taken restart_files load_taken_def coerce_entries_dumps)

text \<open>The mapping \<open>{"1": 5, "abc": 0}\<close> survives the round trip.\<close>

theorem save_then_load_roundtrip_witness:
  "distinct (map fst [(ascii ''1'', 5::int), (ascii ''abc'', 0)]) \<and>
   nyx_notes (snd (load_notes (restart (snd (save_notes no_faults
     (empty_store\<lparr>nyx_notes := [(ascii ''1'', 5), (ascii ''abc'', 0)]\<rparr>)))))) =
     [(ascii ''1'', 5), (ascii ''abc'', 0)]"
  using save_then_load_roundtrip[of "[(ascii ''1'', 5), (ascii ''abc'', 0)]" empty_store]
  by (simp add: ascii_def)

lemma list_all_dict_set: "list_all P d \<Longrightarrow> P (k, v) \<Longrightarrow> list_all P (dict_set d k v)"
  by (induction d) auto

lemma file_ok_dumps:
  assumes "list_all (\<lambda>(k, n). 0 \<le> n) d"
  shows "file_ok (Some (json_dumps d))"
proof -
  have "0 \<le> n" if "(k, n) \<in> set (coerce_entries (py_dict (map (\<lambda>(k, v). (k, JInt v)) d)))" for k n
  proof -
    from coerce_entries_mem[OF that] obtain v where
      v: "(k, v) \<in> set (py_dict (map (\<lambda>(k, v). (k, JInt v)) d))" "py_int v = Inr n"
      by auto
    from v(1) set_py_dict[of "map (\<lambda>(k, v). (k, JInt v)) d"]
    have "(k, v) \<in> set (map (\<lambda>(k, v). (k, JInt v)) d)" by blast
    then obtain n' where "(k, n') \<in> set d" "v = JInt n'" by auto
    with v(2) assms show ?thesis by (auto simp: list_all_iff)
  qed
  then show ?thesis by (auto simp: file_ok_def json_dumps_def list_all_iff)
qed

lemma file_ok_None [simp]: "file_ok None"
  by (simp add: file_ok_def)

lemma load_taken_ok:
  assumes "file_ok c" "file_ok b"
  shows "list_all (\<lambda>(k, n). 0 \<le> n) (load_taken c b)"
proof -
  have a: "list_all (\<lambda>(k, n). 0 \<le> n) (coerce_entries kvs)"
    if "taken f = Some kvs" "file_ok f" for f kvs
    using taken_SomeD[OF that(1)] that(2) by (auto simp: file_ok_def)
  show ?thesis
    using a[of c] a[of b] assms by (auto simp: load_taken_def split: option.splits)
qed

lemma save_notes_files:
  "notes_file (snd (save_notes io m)) \<in>
     {None, notes_file m, backup_file m, Some (json_dumps (nyx_notes m))} \<and>
   backup_file (snd (save_notes io m)) \<in> {None, notes_file m, backup_file m}"
  by (simp add: save_notes_cases save_try_cases)

lemma store_ok_save: "store_ok m \<Longrightarrow> store_ok (snd (save_notes io m))"
  using save_notes_files[of io m] save_notes_mem[of io m] file_ok_dumps[of "nyx_notes m"]
  by (auto simp: store_ok_def)

lemma store_ok_load: "store_ok m \<Longrightarrow> store_ok (snd (load_notes m))"
  using load_notes_taken[of m] load_taken_ok[of "notes_file m" "backup_file m"]
    disk_eqD[OF load_from_disk[of "[NotesFile, BackupFile]" m]]
  by (simp add: store_ok_def load_notes_def del: load_from.simps)

lemma store_ok_ensure_loaded: "store_ok m \<Longrightarrow> store_ok (snd (ensure_loaded m))"
  by (simp add: ensure_loaded_def store_ok_load)

lemma store_ok_add_locked: "store_ok m \<Longrightarrow> store_ok (snd (add_locked u d m))"
  by (simp add: add_locked_def Let_def store_ok_def list_all_dict_set)

lemma store_ok_set_locked: "store_ok m \<Longrightarrow> store_ok (snd (set_locked u d m))"
  by (simp add: set_locked_def Let_def store_ok_def list_all_dict_set)

text \<open>
  Claim C7. On a store without a negative balance, in memory and in the snapshots on disk,
  \<open>add_nyx_notes\<close>, \<open>set_nyx_notes\<close> (under every fault pattern of the save) and
  \<open>load_notes\<close> leave a store without a negative balance, and the balance that a
  mutation writes is not negative whatever the delta or the amount.
\<close>

theorem balances_stay_nonnegative:
  assumes "store_ok m"
  shows "store_ok (snd (add_nyx_notes io u d m)) \<and> store_ok (snd (set_nyx_notes io u v m)) \<and>
         store_ok (snd (load_notes m)) \<and>
         0 \<le> balance_of u (snd (add_nyx_notes io u d m)) \<and>
         0 \<le> balance_of u (snd (set_nyx_notes io u v m))"
proof -
  let ?m0 = "snd (ensure_loaded m)"
  from assms have m0: "store_ok ?m0" by (rule store_ok_ensure_loaded)
  have a: "store_ok (snd (add_nyx_notes io u d m))"
    unfolding add_nyx_notes_unfold snd_conv
    by (rule store_ok_save, rule store_ok_add_locked, rule m0)
  have s: "store_ok (snd (set_nyx_notes io u v m))"
    unfolding set_nyx_notes_unfold snd_conv
    by (rule store_ok_save, rule store_ok_set_locked, rule m0)
  have l: "store_ok (snd (load_notes m))" using assms by (rule store_ok_load)
  have ba: "0 \<le> balance_of u (snd (add_nyx_notes io u d m))"
    using add_nyx_notes_step[of io u d m] by simp
  have "nyx_notes (snd (set_nyx_notes io u v m)) = nyx_notes (snd (set_locked u v ?m0))"
    by (simp add: set_nyx_notes_unfold save_notes_mem)
  then have bs: "0 \<le> balance_of u (snd (set_nyx_notes io u v m))"
    by (simp add: balance_of_def set_locked_def Let_def dict_get_dict_set_same)
  from a s l ba bs show ?thesis by simp
qed

text \<open>Taking 100 from a balance of 10 leaves 0 in a store that still satisfies the invariant.\<close>

theorem balances_stay_nonnegative_witness:
  "store_ok sample_store \<and>
   store_ok (snd (add_nyx_notes no_faults 7 (- 100) sample_store)) \<and>
   balance_of 7 (snd (add_nyx_notes no_faults 7 (- 100) sample_store)) = 0"
  using balances_stay_nonnegative[of sample_store no_faults 7 "- 100" 0]
    add_nyx_notes_step[of no_faults 7 "- 100" sample_store]
  by (simp add: sample_store_def store_ok_def file_ok_def json_dumps_def py_dict_def
      coerce_entries_def map_filter_simps ensure_loaded_def balance_of_def dict_get_def)

subsection \<open>get_leaderboard\<close>

lemma int_keys_Inr:
  "\<forall>k\<in>fst ` set d. int_of_str k \<noteq> None \<Longrightarrow> int_keys d = Inr (users_of d)"
  by (induction d) (auto simp: users_of_def)


lemma get_leaderboard_unfold:
  "get_leaderboard limit m =
     (case int_keys (nyx_notes (snd (ensure_loaded m))) of
        Inl e \<Rightarrow> (Inl e, snd (ensure_loaded m))
      | Inr users \<Rightarrow> (Inr (slice_to limit (sorted_reverse snd users)), snd (ensure_loaded m)))"
proof -
  obtain m0 where m0: "ensure_loaded m = (None, m0)"
    using ensure_loaded_ok[of m] by (cases "ensure_loaded m") simp
  show ?thesis by (simp add: get_leaderboard_def m0 split: sum.splits)
qed


lemma get_leaderboard_returns:
  "\<forall>k\<in>fst ` set (nyx_notes (snd (ensure_loaded m))). int_of_str k \<noteq> None \<Longrightarrow>
   fst (get_leaderboard limit m) =
     Inr (slice_to limit (sorted_reverse snd (users_of (nyx_notes (snd (ensure_loaded m))))))"
  by (simp add: get_leaderboard_unfold int_keys_Inr)

lemma count_list_insort_key: "count_list (insort_key f a ys) x = count_list (a # ys) x"
  by (induction ys) auto

lemma count_list_sort_key: "count_list (sort_key f xs) x = count_list xs x"
  by (induction xs) (simp_all add: count_list_insort_key)

lemma sorted_reverse_descending: "sorted_wrt (\<lambda>x y. key y \<le> key x) (sorted_reverse key xs)"
  using sorted_sort_key[of key "rev xs"]
  by (simp add: sorted_reverse_def sorted_wrt_rev sorted_map)

lemma sorted_reverse_count: "count_list (sorted_reverse key xs) x = count_list xs x"
  by (simp add: sorted_reverse_def count_list_sort_key)

lemma sorted_reverse_stable:
  "filter (\<lambda>y. key y = k) (sorted_reverse key xs) = filter (\<lambda>y. key y = k) xs"
  using sort_key_stable[of key k "rev xs"]
  by (simp add: sorted_reverse_def rev_filter [symmetric])

lemma sorted_reverse_length: "length (sorted_reverse key xs) = length xs"
  by (simp add: sorted_reverse_def)




lemma ev_keys:
  "int_of_str (ascii ''1'') = Some 1 \<and> int_of_str (ascii ''2'') = Some 2 \<and>
   int_of_str (ascii ''3'') = Some 3 \<and> int_of_str (ascii ''4'') = Some 4 \<and>
   int_of_str (ascii ''a'') = None"
  by (simp add: int_of_str_def ascii_def to_ascii_def strip_def is_space_def parse_nat_def
      is_digit_def digit_val_def max_str_digits_def)



lemma slice_to_nonneg: "0 \<le> n \<Longrightarrow> slice_to n xs = take (nat n) xs"
  by (simp add: slice_to_def)

lemma get_leaderboard_top_aux:
  assumes "0 \<le> n"
  shows "\<exists>rest.
      length (slice_to n (sorted_reverse snd users)) = min (nat n) (length users) \<and>
      sorted_wrt (\<lambda>x y. snd y \<le> snd x) (slice_to n (sorted_reverse snd users)) \<and>
      (\<forall>p. count_list (slice_to n (sorted_reverse snd users) @ rest) p = count_list users p) \<and>
      (\<forall>x\<in>set (slice_to n (sorted_reverse snd users)). \<forall>y\<in>set rest. snd y \<le> snd x) \<and>
      (\<forall>b. filter (\<lambda>p. snd p = b) (slice_to n (sorted_reverse snd users) @ rest) =
           filter (\<lambda>p. snd p = b) users)"
proof -
  let ?s = "sorted_reverse snd users"
  let ?r = "take (nat n) ?s"
  let ?rest = "drop (nat n) ?s"
  have s: "sorted_wrt (\<lambda>x y. snd y \<le> snd x) (?r @ ?rest)"
    using sorted_reverse_descending[of snd users] by simp
  have 1: "length ?r = min (nat n) (length users)"
    by (simp add: sorted_reverse_length min.commute)
  have 2: "sorted_wrt (\<lambda>x y. snd y \<le> snd x) ?r"
    using s unfolding sorted_wrt_append by blast
  have 3: "\<forall>p. count_list (?r @ ?rest) p = count_list users p"
    by (simp add: sorted_reverse_count)
  have 4: "\<forall>x\<in>set ?r. \<forall>y\<in>set ?rest. snd y \<le> snd x"
    using s unfolding sorted_wrt_append by blast
  have 5: "\<forall>b. filter (\<lambda>p. snd p = b) (?r @ ?rest) = filter (\<lambda>p. snd p = b) users"
    using sorted_reverse_stable[of snd _ users] by simp
  from 1 2 3 4 5 show ?thesis
    unfolding slice_to_nonneg[OF assms] by (intro exI[of _ ?rest]) blast
qed

text \<open>
  Claim C8, amended. When \<open>int\<close> accepts every key of the loaded store and \<open>n\<close> is not
  negative, \<open>get_leaderboard n\<close> returns \<open>min n size\<close> pairs \<open>(int(uid), points)\<close>: they
  are in descending order of points, they are a prefix of a rearrangement of all the pairs
  whose remainder holds no higher balance, and pairs of equal points keep the order in which
  their keys were inserted.
\<close>

theorem get_leaderboard_top:
  assumes "\<forall>k\<in>fst ` set (nyx_notes (snd (ensure_loaded m))). int_of_str k \<noteq> None" and "0 \<le> n"
  shows "\<exists>r rest.
      fst (get_leaderboard n m) = Inr r \<and>
      length r = min (nat n) (length (nyx_notes (snd (ensure_loaded m)))) \<and>
      sorted_wrt (\<lambda>x y. snd y \<le> snd x) r \<and>
      (\<forall>p. count_list (r @ rest) p = count_list (users_of (nyx_notes (snd (ensure_loaded m)))) p) \<and>
      (\<forall>x\<in>set r. \<forall>y\<in>set rest. snd y \<le> snd x) \<and>
      (\<forall>b. filter (\<lambda>p. snd p = b) (r @ rest) =
           filter (\<lambda>p. snd p = b) (users_of (nyx_notes (snd (ensure_loaded m)))))"
proof -
  let ?users = "users_of (nyx_notes (snd (ensure_loaded m)))"
  have l: "length ?users = length (nyx_notes (snd (ensure_loaded m)))"
    by (simp add: users_of_def)
  from get_leaderboard_top_aux[OF assms(2), of ?users] obtain rest where
    "length (slice_to n (sorted_reverse snd ?users)) = min (nat n) (length ?users) \<and>
      sorted_wrt (\<lambda>x y. snd y \<le> snd x) (slice_to n (sorted_reverse snd ?users)) \<and>
      (\<forall>p. count_list (slice_to n (sorted_reverse snd ?users) @ rest) p = count_list ?users p) \<and>
      (\<forall>x\<in>set (slice_to n (sorted_reverse snd ?users)). \<forall>y\<in>set rest. snd y \<le> snd x) \<and>
      (\<forall>b. filter (\<lambda>p. snd p = b) (slice_to n (sorted_reverse snd ?users) @ rest) =
           filter (\<lambda>p. snd p = b) ?users)"
    by blast
  with get_leaderboard_returns[OF assms(1), of n] l show ?thesis
    by (intro exI[of _ "slice_to n (sorted_reverse snd ?users)"] exI[of _ rest]) simp
qed

text \<open>
  The example of the specification, with user ids 1 to 4 for the users a to d.
\<close>

theorem get_leaderboard_top_witness:
  "nyx_notes (snd (ensure_loaded board_store)) =
     [(ascii ''1'', 50), (ascii ''2'', 10), (ascii ''3'', 30), (ascii ''4'', 5)] \<and>
   int_of_str (ascii ''1'') = Some 1 \<and> int_of_str (ascii ''2'') = Some 2 \<and>
   int_of_str (ascii ''3'') = Some 3 \<and> int_of_str (ascii ''4'') = Some 4 \<and>
   (0::int) \<le> 3 \<and>
   fst (get_leaderboard 3 board_store) = Inr [(1, 50), (3, 30), (2, 10)]"
  using get_leaderboard_top[of board_store 3]
  by (simp add: board_store_def empty_store_def ensure_loaded_def get_leaderboard_def
      sorted_reverse_def slice_to_def ev_keys)

text \<open>
  Claim C8 as stated fails at two inputs. On the store of the specification's example,
  with the keys a, b, c and d, \<open>get_leaderboard 3\<close> raises ValueError and returns no pairs.
  For \<open>n = -1\<close> on a store of four users the slice leaves three pairs, where
  \<open>min n size\<close> is \<open>-1\<close>.
\<close>

theorem get_leaderboard_counterexample:
  "nyx_notes letters_store =
     [(ascii ''a'', 50), (ascii ''b'', 10), (ascii ''c'', 30), (ascii ''d'', 5)] \<and>
   fst (get_leaderboard 3 letters_store) = Inl ValueError \<and>
   fst (get_leaderboard (- 1) board_store) = Inr [(1, 50), (3, 30), (2, 10)] \<and>
   min (- 1) (int (length (nyx_notes board_store))) = - 1"
  by (simp add: letters_store_def letters_def board_store_def empty_store_def ensure_loaded_def
      get_leaderboard_def sorted_reverse_def slice_to_def ev_keys)


end
